theory Spec2Isabelle
  imports Complex_Main
begin

section \<open>Pitches in array notation\<close>

text \<open>
  The library \<^verbatim>\<open>dist/tonal.js\<close> keeps a pitch as a JavaScript array tagged with the
  string \<^verbatim>\<open>'tnl'\<close>: \<^verbatim>\<open>['tnl', f]\<close> is a pitch class, \<^verbatim>\<open>['tnl', f, o]\<close> a note pitch and
  \<^verbatim>\<open>['tnl', f, o, d]\<close> an interval. The three shapes are the three constructors below;
  the entries are the integers the documentation of the constructors asks for
  (JavaScript numbers that hold integers, far from the limit of exact doubles).
\<close>

datatype pitch =
    Tnl2 int
  | Tnl3 int int
  | Tnl4 int int int

text \<open>\<^verbatim>\<open>p[1]\<close>, \<^verbatim>\<open>p[2]\<close>, \<^verbatim>\<open>p[3]\<close> and \<^verbatim>\<open>p.length\<close>; a missing entry reads as
  \<^verbatim>\<open>undefined\<close>, here \<open>None\<close>.\<close>

fun at1 :: "pitch \<Rightarrow> int" where
  "at1 (Tnl2 f) = f"
| "at1 (Tnl3 f o2) = f"
| "at1 (Tnl4 f o2 d) = f"

fun at2 :: "pitch \<Rightarrow> int option" where
  "at2 (Tnl2 f) = None"
| "at2 (Tnl3 f o2) = Some o2"
| "at2 (Tnl4 f o2 d) = Some o2"

fun at3 :: "pitch \<Rightarrow> int option" where
  "at3 (Tnl2 f) = None"
| "at3 (Tnl3 f o2) = None"
| "at3 (Tnl4 f o2 d) = Some d"

fun len :: "pitch \<Rightarrow> nat" where
  "len (Tnl2 f) = 2"
| "len (Tnl3 f o2) = 3"
| "len (Tnl4 f o2 d) = 4"

text \<open>\<^verbatim>\<open>const encDir = (n) => n < 0 ? -1 : 1\<close> and
  \<^verbatim>\<open>const calcDir = (f, o) => encDir(7 * f + 12 * o)\<close>.\<close>

definition encDir :: "int \<Rightarrow> int" where
  "encDir n = (if n < 0 then - 1 else 1)"

definition calcDir :: "int \<Rightarrow> int \<Rightarrow> int" where
  "calcDir f o2 = encDir (7 * f + 12 * o2)"

definition pcArr :: "int \<Rightarrow> pitch" where
  "pcArr f = Tnl2 f"

definition noteArr :: "int \<Rightarrow> int \<Rightarrow> pitch" where
  "noteArr f o2 = Tnl3 f o2"

text \<open>\<^verbatim>\<open>const ivlPitch = (f, o, d) => ['tnl', f, o, d || calcDir(f, o) ]\<close>: a direction
  that is missing or zero is falsy, and the direction is then computed.\<close>

definition ivlPitch :: "int \<Rightarrow> int \<Rightarrow> int option \<Rightarrow> pitch" where
  "ivlPitch f o2 d =
     Tnl4 f o2 (case d of None \<Rightarrow> calcDir f o2
                | Some d' \<Rightarrow> if d' \<noteq> 0 then d' else calcDir f o2)"

text \<open>The shape tests; every value of type \<^typ>\<open>pitch\<close> satisfies \<^verbatim>\<open>isPitch\<close>.\<close>

definition isPitchClass :: "pitch \<Rightarrow> bool" where
  "isPitchClass p = (len p = 2)"

definition hasOct :: "pitch \<Rightarrow> bool" where
  "hasOct p = (at2 p \<noteq> None)"

definition isIvlPitch :: "pitch \<Rightarrow> bool" where
  "isIvlPitch i = (hasOct i \<and> at3 i \<noteq> None)"

section \<open>Pitch encoding\<close>

definition FIFTHS :: "int list" where
  "FIFTHS = [0, 2, 4, - 1, 1, 3, 5]"

text \<open>\<^verbatim>\<open>const fOcts = (f) => Math.floor(f * 7 / 12)\<close>; on integers the floor of the
  quotient is \<open>div\<close>.\<close>

definition fOcts :: "int \<Rightarrow> int" where
  "fOcts f = (f * 7) div 12"

definition FIFTH_OCTS :: "int list" where
  "FIFTH_OCTS = map fOcts FIFTHS"

text \<open>The tables are read at a step that \<^verbatim>\<open>encode\<close> has checked to lie in 0..6.\<close>

definition encPC :: "int \<Rightarrow> int \<Rightarrow> int" where
  "encPC st al = FIFTHS ! nat st + 7 * al"

definition encOct :: "int \<Rightarrow> int \<Rightarrow> int \<Rightarrow> int" where
  "encOct st al oc = oc - FIFTH_OCTS ! nat st - 4 * al"

text \<open>\<^verbatim>\<open>encode (step, alt, oct, dir)\<close>: \<open>None\<close> is \<^verbatim>\<open>null\<close>; an octave or direction
  that is not a number is \<open>None\<close>.\<close>

definition encode :: "int \<Rightarrow> int \<Rightarrow> int option \<Rightarrow> int option \<Rightarrow> pitch option" where
  "encode st al oc di =
     (if st < 0 \<or> st > 6 then None
      else
        let pc = encPC st al in
        case oc of
          None \<Rightarrow> Some (pcArr pc)
        | Some oc' \<Rightarrow>
            let o2 = encOct st al oc' in
            case di of
              None \<Rightarrow> Some (noteArr pc o2)
            | Some di' \<Rightarrow>
                let d = encDir di' in
                Some (ivlPitch (d * pc) (d * o2) (Some d)))"

section \<open>Pitch decoding\<close>

text \<open>JavaScript's \<^verbatim>\<open>%\<close> takes the sign of the dividend.\<close>

definition js_rem :: "int \<Rightarrow> int \<Rightarrow> int" where
  "js_rem a b = sgn a * (\<bar>a\<bar> mod \<bar>b\<bar>)"

definition unaltered :: "int \<Rightarrow> int" where
  "unaltered f = (let i = js_rem (f + 1) 7 in if i < 0 then 7 + i else i)"

definition STEPS :: "int list" where
  "STEPS = [3, 0, 4, 1, 5, 2, 6]"

definition decodeStep :: "int \<Rightarrow> int" where
  "decodeStep f = STEPS ! nat (unaltered f)"

definition decodeAlt :: "int \<Rightarrow> int" where
  "decodeAlt f = (f + 1) div 7"

record props =
  step :: int
  alt :: int
  oct :: "int option"
  dir :: "int option"

text \<open>\<^verbatim>\<open>decode (p)\<close>; \<^verbatim>\<open>p[3] || null\<close> is \<^verbatim>\<open>null\<close> for a direction that is missing
  or zero.\<close>

definition decode :: "pitch \<Rightarrow> props" where
  "decode p =
     (let s = decodeStep (at1 p);
          a = decodeAlt (at1 p);
          o2 = (case at2 p of
                  Some n \<Rightarrow> Some (n + 4 * a + FIFTH_OCTS ! nat s)
                | None \<Rightarrow> None)
      in \<lparr> step = s, alt = a, oct = o2,
           dir = (case at3 p of
                    Some d \<Rightarrow> if d \<noteq> 0 then Some d else None
                  | None \<Rightarrow> None) \<rparr>)"

text \<open>The fifths of a descending interval are negated; what decoding reads from them.\<close>

definition inv_step :: "int \<Rightarrow> int" where
  "inv_step st = (7 - st) mod 7"

definition inv_alt :: "int \<Rightarrow> int \<Rightarrow> int" where
  "inv_alt st al = (if st = 0 \<or> st = 3 \<or> st = 4 then - al else - (al + 1))"

definition inv_oct :: "int \<Rightarrow> int \<Rightarrow> int" where
  "inv_oct st oc = (if st = 0 then - oc else - oc - 1)"

section \<open>JavaScript values and the external grammars\<close>

text \<open>
  The exported functions take strings as well as pitch arrays, and answer \<^verbatim>\<open>null\<close> where
  they have no result. The values that occur are collected in one type; \<open>JPitch\<close> is an
  array in pitch notation, \<open>JNum\<close> a finite number.
\<close>

datatype jsval =
    JNull
  | JUndefined
  | JBool bool
  | JNum real
  | JStr string
  | JPitch pitch

datatype error = TypeError

text \<open>
  The library calls two packages that are not part of it, \<^verbatim>\<open>note-parser\<close> and
  \<^verbatim>\<open>interval-notation\<close>, and compares strings with numbers, which JavaScript does by
  converting the string. These are parameters of the model:
  \<^item> \<open>noteParse\<close> returns the fields \<^verbatim>\<open>{step, alt, oct}\<close> of a note name, the octave
    possibly undefined, or \<^verbatim>\<open>null\<close>;
  \<^item> \<open>ivlParse\<close> returns the fields \<^verbatim>\<open>{simple, alt, oct, dir}\<close> of an interval name, or
    \<^verbatim>\<open>null\<close>;
  \<^item> \<open>altToQ\<close> gives the quality string for an interval number and an alteration;
  \<^item> \<open>ivlType\<close> is \<^verbatim>\<open>'P'\<close> for a perfectable interval number and \<^verbatim>\<open>'M'\<close> otherwise;
  \<^item> \<open>toNumber\<close> is the conversion of a string to a number, \<open>None\<close> for \<^verbatim>\<open>NaN\<close>.
\<close>

record ext =
  noteParse :: "string \<Rightarrow> (int \<times> int \<times> int option) option"
  ivlParse :: "string \<Rightarrow> (int \<times> int \<times> int \<times> int) option"
  altToQ :: "int \<Rightarrow> int \<Rightarrow> string"
  ivlType :: "int \<Rightarrow> string"
  toNumber :: "string \<Rightarrow> real option"

subsection \<open>Numbers as strings\<close>

text \<open>Concatenating a string and an integer number writes the number in decimal.\<close>

definition digit_char :: "nat \<Rightarrow> char" where
  "digit_char n = ''0123456789'' ! n"

fun show_nat :: "nat \<Rightarrow> string" where
  "show_nat n = (if n < 10 then [digit_char n] else show_nat (n div 10) @ [digit_char (n mod 10)])"

declare show_nat.simps [simp del]

definition show_int :: "int \<Rightarrow> string" where
  "show_int i = (if i < 0 then CHR ''-'' # show_nat (nat (- i)) else show_nat (nat i))"

section \<open>Pitch parsers\<close>

text \<open>
  \<^verbatim>\<open>cached\<close> answers \<^verbatim>\<open>null\<close> for an argument that is not a string and otherwise the
  parser's result, which it remembers; the cache is modelled as what it computes. The
  cache is a plain object, so for a string that names an inherited member of every object
  (\<^verbatim>\<open>'constructor'\<close>, \<^verbatim>\<open>'toString'\<close>, \<^verbatim>\<open>'__proto__'\<close> and the like) the source returns that
  member and not the parser's result; those strings are outside this model, and no
  statement below is applied at one of them.
\<close>

definition parseNote :: "ext \<Rightarrow> jsval \<Rightarrow> pitch option" where
  "parseNote E v =
     (case v of
        JStr str \<Rightarrow>
          (case noteParse E str of
             None \<Rightarrow> None
           | Some (st, al, oc) \<Rightarrow> encode st al oc None)
      | _ \<Rightarrow> None)"

definition parseIvl :: "ext \<Rightarrow> jsval \<Rightarrow> pitch option" where
  "parseIvl E v =
     (case v of
        JStr str \<Rightarrow>
          (case ivlParse E str of
             None \<Rightarrow> None
           | Some (simple, al, oc, di) \<Rightarrow> encode (simple - 1) al (Some oc) (Some di))
      | _ \<Rightarrow> None)"

text \<open>\<^verbatim>\<open>const parsePitch = (str) => parseNote(str) || parseIvl(str)\<close>\<close>

definition parsePitch :: "ext \<Rightarrow> jsval \<Rightarrow> pitch option" where
  "parsePitch E v = (case parseNote E v of Some p \<Rightarrow> Some p | None \<Rightarrow> parseIvl E v)"

section \<open>Pitch to string\<close>

text \<open>\<^verbatim>\<open>const toLetter = (s) => 'CDEFGAB'[s % 7]\<close>; a negative index reads \<^verbatim>\<open>undefined\<close>,
  which the concatenation in \<^verbatim>\<open>strNote\<close> writes out.\<close>

definition toLetter :: "int \<Rightarrow> string" where
  "toLetter s = (let i = js_rem s 7 in if 0 \<le> i then [''CDEFGAB'' ! nat i] else ''undefined'')"

text \<open>\<^verbatim>\<open>const fillStr = (s, num) => Array(Math.abs(num) + 1).join(s)\<close>\<close>

definition fillStr :: "char \<Rightarrow> int \<Rightarrow> string" where
  "fillStr c num = replicate (nat \<bar>num\<bar>) c"

definition toAcc :: "int \<Rightarrow> string" where
  "toAcc n = fillStr (if n < 0 then CHR ''b'' else CHR ''#'') n"

definition strNum :: "int option \<Rightarrow> string" where
  "strNum n = (case n of Some k \<Rightarrow> show_int k | None \<Rightarrow> [])"

text \<open>\<^verbatim>\<open>strNote\<close> rejects a pitch with a truthy direction.\<close>

definition strNote :: "pitch \<Rightarrow> string option" where
  "strNote n =
     (if (case at3 n of Some d \<Rightarrow> d \<noteq> 0 | None \<Rightarrow> False) then None
      else let p = decode n in Some (toLetter (step p) @ toAcc (alt p) @ strNum (oct p)))"

definition isAsc :: "props \<Rightarrow> bool" where
  "isAsc p = (dir p = Some 1)"

definition isPerf :: "ext \<Rightarrow> props \<Rightarrow> bool" where
  "isPerf E p = (ivlType E (step p + 1) = ''P'')"

text \<open>In arithmetic \<^verbatim>\<open>null\<close> counts as 0.\<close>

definition nullnum :: "int option \<Rightarrow> int" where
  "nullnum n = (case n of Some k \<Rightarrow> k | None \<Rightarrow> 0)"

definition calcNum :: "props \<Rightarrow> int" where
  "calcNum p =
     (if isAsc p then step p + 1 + 7 * nullnum (oct p)
      else (8 - step p) - 7 * (nullnum (oct p) + 1))"

definition calcAlt :: "ext \<Rightarrow> props \<Rightarrow> int" where
  "calcAlt E p = (if isAsc p then alt p else if isPerf E p then - alt p else - (alt p + 1))"

definition strIvl :: "ext \<Rightarrow> pitch \<Rightarrow> string option" where
  "strIvl E pitch =
     (if isIvlPitch pitch then
        let p = decode pitch; num = calcNum p
        in Some (show_int (nullnum (dir p) * num) @ altToQ E num (calcAlt E p))
      else None)"

text \<open>\<^verbatim>\<open>const strPitch = (p) => p[3] ? strIvl(p) : strNote(p)\<close>\<close>

definition strPitch :: "ext \<Rightarrow> pitch \<Rightarrow> string option" where
  "strPitch E p =
     (if (case at3 p of Some d \<Rightarrow> d \<noteq> 0 | None \<Rightarrow> False) then strIvl E p else strNote p)"

section \<open>Decorators\<close>

text \<open>\<^verbatim>\<open>notation (parse, str)\<close> parses what is not a pitch and renders what is one.\<close>

definition asNote :: "ext \<Rightarrow> jsval \<Rightarrow> pitch option" where
  "asNote E v = (case v of JPitch p \<Rightarrow> Some p | _ \<Rightarrow> parseNote E v)"

definition asPitch :: "ext \<Rightarrow> jsval \<Rightarrow> pitch option" where
  "asPitch E v = (case v of JPitch p \<Rightarrow> Some p | _ \<Rightarrow> parsePitch E v)"

definition ofStr :: "string option \<Rightarrow> jsval" where
  "ofStr s = (case s of Some str \<Rightarrow> JStr str | None \<Rightarrow> JNull)"

definition ofPitch :: "pitch option \<Rightarrow> jsval" where
  "ofPitch p = (case p of Some q \<Rightarrow> JPitch q | None \<Rightarrow> JNull)"

definition toIvlStr :: "ext \<Rightarrow> jsval \<Rightarrow> jsval" where
  "toIvlStr E v = (case v of JPitch p \<Rightarrow> ofStr (strIvl E p) | _ \<Rightarrow> v)"

definition toPitchStr :: "ext \<Rightarrow> jsval \<Rightarrow> jsval" where
  "toPitchStr E v = (case v of JPitch p \<Rightarrow> ofStr (strPitch E p) | _ \<Rightarrow> v)"

text \<open>
  \<^verbatim>\<open>pitchOp (parse, to) (fn) (v)\<close>: a pitch array goes to \<open>fn\<close> as it is; anything else is
  parsed, and the result of \<open>fn\<close> goes through \<open>to\<close>. The value for \<^verbatim>\<open>null\<close> is an argument,
  so that the decorator serves functions with results of either type used below.
\<close>

definition pitchOp ::
  "(jsval \<Rightarrow> pitch option) \<Rightarrow> ('r \<Rightarrow> 'r) \<Rightarrow> 'r \<Rightarrow> (pitch \<Rightarrow> 'r) \<Rightarrow> jsval \<Rightarrow> 'r" where
  "pitchOp parse to null fn v =
     (case v of
        JPitch p \<Rightarrow> fn p
      | _ \<Rightarrow> (case parse v of Some p \<Rightarrow> to (fn p) | None \<Rightarrow> null))"

section \<open>Pitch properties\<close>

definition chroma :: "ext \<Rightarrow> jsval \<Rightarrow> jsval" where
  "chroma E =
     pitchOp (parsePitch E) (toPitchStr E) JNull
       (\<lambda>n. JNum (of_int (7 * at1 n - 12 * fOcts (at1 n))))"

text \<open>
  The function that \<^verbatim>\<open>simplify\<close> decorates reads the direction \<^verbatim>\<open>i[3]\<close>. On an array
  without one the source multiplies by \<^verbatim>\<open>undefined\<close> and builds an array with a \<^verbatim>\<open>NaN\<close>
  entry, which is not a value of this model: \<open>None\<close>.
\<close>

definition simplify_fn :: "pitch \<Rightarrow> jsval option" where
  "simplify_fn i =
     (case i of
        Tnl4 f o2 d \<Rightarrow>
          let s = decodeStep (d * f); a = decodeAlt (d * f)
          in Some (JPitch (ivlPitch f (- d * (FIFTH_OCTS ! nat s + 4 * a)) (Some d)))
      | _ \<Rightarrow> None)"

definition simplify :: "ext \<Rightarrow> jsval \<Rightarrow> jsval option" where
  "simplify E = pitchOp (parseIvl E) (map_option (toIvlStr E)) (Some JNull) simplify_fn"

text \<open>Inside \<^verbatim>\<open>simplifyAsc\<close> the argument is an array, so \<^verbatim>\<open>simplify\<close> answers an array.\<close>

definition simplifyAsc_fn :: "ext \<Rightarrow> pitch \<Rightarrow> jsval option" where
  "simplifyAsc_fn E i =
     (case simplify E (JPitch i) of
        Some (JPitch (Tnl4 f o2 d)) \<Rightarrow>
          Some (JPitch (if d = 1 then Tnl4 f o2 d else ivlPitch f (o2 + 1) (Some 1)))
      | _ \<Rightarrow> None)"

definition simplifyAsc :: "ext \<Rightarrow> jsval \<Rightarrow> jsval option" where
  "simplifyAsc E = pitchOp (parseIvl E) (map_option (toIvlStr E)) (Some JNull) (simplifyAsc_fn E)"

section \<open>Midi pitch numbers\<close>

text \<open>\<^verbatim>\<open>const height = (p) => p[1] * 7 + 12 * p[2]\<close>, for a pitch that has an octave.\<close>

definition height :: "pitch \<Rightarrow> int option" where
  "height p = (case at2 p of Some o2 \<Rightarrow> Some (at1 p * 7 + 12 * o2) | None \<Rightarrow> None)"

text \<open>The number a value is compared as and that unary \<^verbatim>\<open>+\<close> returns; \<open>None\<close> is
  \<^verbatim>\<open>NaN\<close>.\<close>

definition js_number :: "ext \<Rightarrow> jsval \<Rightarrow> real option" where
  "js_number E v =
     (case v of
        JNull \<Rightarrow> Some 0
      | JUndefined \<Rightarrow> None
      | JBool b \<Rightarrow> Some (if b then 1 else 0)
      | JNum x \<Rightarrow> Some x
      | JStr s \<Rightarrow> toNumber E s
      | JPitch p \<Rightarrow> None)"

definition isValue :: "jsval \<Rightarrow> bool" where
  "isValue v = (v \<noteq> JNull \<and> v \<noteq> JUndefined)"

definition isArr :: "jsval \<Rightarrow> bool" where
  "isArr v = (case v of JPitch p \<Rightarrow> True | _ \<Rightarrow> False)"

text \<open>\<^verbatim>\<open>const isMidi = (m) => isValue(m) && !isArr(m) && m >= 0 && m < 128\<close>\<close>

definition isMidi :: "ext \<Rightarrow> jsval \<Rightarrow> bool" where
  "isMidi E m =
     (isValue m \<and> \<not> isArr m
      \<and> (case js_number E m of Some x \<Rightarrow> 0 \<le> x \<and> x < 128 | None \<Rightarrow> False))"

text \<open>
  \<^verbatim>\<open>midi\<close>: the height is defined exactly for a pitch on which \<^verbatim>\<open>hasOct\<close> holds; the
  branch \<^verbatim>\<open>+val\<close> is taken only when \<^verbatim>\<open>isMidi\<close> holds, and then the value has a number.
\<close>

definition midi :: "ext \<Rightarrow> jsval \<Rightarrow> jsval" where
  "midi E val =
     (let p = asNote E val in
      case (case p of Some q \<Rightarrow> height q | None \<Rightarrow> None) of
        Some h \<Rightarrow> JNum (of_int (h + 12))
      | None \<Rightarrow>
          if isMidi E val
          then (case js_number E val of Some x \<Rightarrow> JNum x | None \<Rightarrow> JNull)
          else JNull)"

definition PCS :: "string list" where
  "PCS = [''C'', ''Db'', ''D'', ''Eb'', ''E'', ''F'', ''Gb'', ''G'', ''Ab'', ''A'', ''Bb'', ''B'']"

text \<open>
  \<^verbatim>\<open>fromMidi\<close> on an integer: for a negative \<^verbatim>\<open>m % 12\<close> the table reads \<^verbatim>\<open>undefined\<close> and
  the sum with the octave number is \<^verbatim>\<open>NaN\<close>, not a string: \<open>None\<close>.
\<close>

definition fromMidi :: "int \<Rightarrow> string option" where
  "fromMidi m =
     (let i = js_rem m 12; o2 = m div 12 - 1
      in if 0 \<le> i then Some (PCS ! nat i @ show_int o2) else None)"

section \<open>Transposition and distance\<close>

text \<open>
  \<^verbatim>\<open>trBy (i, p)\<close> is called with an interval \<open>i\<close>, of which it reads the fifths and the
  octave; they are its first two arguments here.
\<close>

definition trBy :: "int \<Rightarrow> int \<Rightarrow> pitch option \<Rightarrow> pitch option" where
  "trBy fi oi p =
     (case p of
        None \<Rightarrow> None
      | Some (Tnl2 fp) \<Rightarrow> Some (Tnl2 (fi + fp))
      | Some (Tnl3 fp op) \<Rightarrow> Some (Tnl3 (fi + fp) (oi + op))
      | Some (Tnl4 fp op dp) \<Rightarrow> Some (Tnl4 (fi + fp) (oi + op) (calcDir (fi + fp) (oi + op))))"

text \<open>The pitch \<^verbatim>\<open>r\<close> that \<^verbatim>\<open>transpose\<close> computes from the two parsed arguments.\<close>

definition transpose_r :: "pitch option \<Rightarrow> pitch option \<Rightarrow> pitch option" where
  "transpose_r pa pb =
     (case pa of
        Some (Tnl4 fa oa da) \<Rightarrow> trBy fa oa pb
      | _ \<Rightarrow> (case pb of Some (Tnl4 fb ob db) \<Rightarrow> trBy fb ob pa | _ \<Rightarrow> None))"

definition transpose :: "ext \<Rightarrow> jsval \<Rightarrow> jsval \<Rightarrow> jsval" where
  "transpose E a b = toPitchStr E (ofPitch (transpose_r (asPitch E a) (asPitch E b)))"

text \<open>
  \<^verbatim>\<open>substr (a, b)\<close> reads \<^verbatim>\<open>a.length\<close> and \<^verbatim>\<open>b.length\<close> first, which throws a
  \<^verbatim>\<open>TypeError\<close> when either is \<^verbatim>\<open>null\<close>. With equal lengths both are pitch classes, or both
  have an octave.
\<close>

fun substr :: "pitch option \<Rightarrow> pitch option \<Rightarrow> error + pitch option" where
  "substr None b = Inl TypeError"
| "substr (Some a) None = Inl TypeError"
| "substr (Some (Tnl2 fa)) (Some (Tnl2 fb)) =
     Inr (Some (ivlPitch (fb - fa) (- fOcts (fb - fa)) (Some 1)))"
| "substr (Some (Tnl3 fa oa)) (Some (Tnl3 fb ob)) =
     Inr (Some (ivlPitch (fb - fa) (ob - oa) None))"
| "substr (Some (Tnl4 fa oa da)) (Some (Tnl4 fb ob db)) =
     Inr (Some (ivlPitch (fb - fa) (ob - oa) None))"
| "substr (Some a) (Some b) = Inr None"

text \<open>
  \<^verbatim>\<open>distance\<close>: when both arguments are arrays the interval is returned as an array,
  otherwise as a string.
\<close>

definition distance :: "ext \<Rightarrow> jsval \<Rightarrow> jsval \<Rightarrow> error + jsval" where
  "distance E a b =
     (case substr (asPitch E a) (asPitch E b) of
        Inl e \<Rightarrow> Inl e
      | Inr i \<Rightarrow> Inr (if isArr a \<and> isArr b then ofPitch i else toIvlStr E (ofPitch i)))"

section \<open>The external grammars, from their description\<close>

text \<open>
  Closed statements need the parameters filled in. The definitions of this section are
  not code of the library: they follow the description of the two packages' contracts.
\<close>

fun index_of :: "'a \<Rightarrow> 'a list \<Rightarrow> nat option" where
  "index_of x [] = None"
| "index_of x (y # ys) = (if x = y then Some 0 else map_option Suc (index_of x ys))"

definition digit_val :: "char \<Rightarrow> nat option" where
  "digit_val c = index_of c ''0123456789''"

fun read_digits :: "nat \<Rightarrow> string \<Rightarrow> nat option" where
  "read_digits acc [] = Some acc"
| "read_digits acc (c # cs) =
     (case digit_val c of None \<Rightarrow> None | Some d \<Rightarrow> read_digits (10 * acc + d) cs)"

definition read_nat :: "string \<Rightarrow> nat option" where
  "read_nat s = (if s = [] then None else read_digits 0 s)"

definition read_int :: "string \<Rightarrow> int option" where
  "read_int s =
     (case s of
        [] \<Rightarrow> None
      | c # r \<Rightarrow>
          if c = CHR ''-'' then map_option (\<lambda>n. - int n) (read_nat r)
          else map_option int (read_nat s))"

text \<open>
  Modelled from the spec: the note grammar of the package \<^verbatim>\<open>note-parser\<close>, which is not
  among the sources. A note name is a letter of \<^verbatim>\<open>CDEFGAB\<close>, then accidentals (\<^verbatim>\<open>b\<close>
  repeated or \<^verbatim>\<open>#\<close> repeated), then optionally the octave, a decimal integer that may be
  negative. The result is the step 0..6, the alteration (negative for flats) and the
  octave, if any.
\<close>

definition noteParse_spec :: "string \<Rightarrow> (int \<times> int \<times> int option) option" where
  "noteParse_spec s =
     (case s of
        [] \<Rightarrow> None
      | c # r \<Rightarrow>
          (case index_of c ''CDEFGAB'' of
             None \<Rightarrow> None
           | Some st \<Rightarrow>
               let fl = takeWhile (\<lambda>x. x = CHR ''b'') r;
                   sh = takeWhile (\<lambda>x. x = CHR ''#'') r;
                   al = (if fl \<noteq> [] then - int (length fl) else int (length sh));
                   rest = drop (length (if fl \<noteq> [] then fl else sh)) r
               in if rest = [] then Some (int st, al, None)
                  else (case read_int rest of
                          None \<Rightarrow> None
                        | Some oc \<Rightarrow> Some (int st, al, Some oc))))"

text \<open>
  Modelled from the spec: the perfectability predicate \<^verbatim>\<open>type\<close> of the package
  \<^verbatim>\<open>interval-notation\<close>. Unison, fourth, fifth and their octaves are perfectable.
\<close>

definition ivlType_spec :: "int \<Rightarrow> string" where
  "ivlType_spec num =
     (let s = (num - 1) mod 7 in if s = 0 \<or> s = 3 \<or> s = 4 then ''P'' else ''M'')"

text \<open>
  Modelled from the spec: the quality formatter \<^verbatim>\<open>altToQ\<close> of the package
  \<^verbatim>\<open>interval-notation\<close>. The tokens are \<^verbatim>\<open>P\<close>, \<^verbatim>\<open>M\<close>, \<^verbatim>\<open>m\<close>, \<^verbatim>\<open>A\<close> repeated and \<^verbatim>\<open>d\<close>
  repeated; a perfectable interval is diminished from alteration -1 on, the others from
  -2 on.
\<close>

definition altToQ_spec :: "int \<Rightarrow> int \<Rightarrow> string" where
  "altToQ_spec num al =
     (let ty = ivlType_spec num in
      if al = 0 then (if ty = ''M'' then ''M'' else ''P'')
      else if al = - 1 \<and> ty = ''M'' then ''m''
      else if 0 < al then replicate (nat al) (CHR ''A'')
      else replicate (nat (if ty = ''P'' then - al else - al - 1)) (CHR ''d''))"

text \<open>The alteration a quality token stands for, on an interval of the given type.\<close>

definition qToAlt :: "string \<Rightarrow> string \<Rightarrow> int option" where
  "qToAlt ty q =
     (if q = ''P'' then (if ty = ''P'' then Some 0 else None)
      else if q = ''M'' then (if ty = ''M'' then Some 0 else None)
      else if q = ''m'' then (if ty = ''M'' then Some (- 1) else None)
      else if q \<noteq> [] \<and> q = replicate (length q) (CHR ''A'') then Some (int (length q))
      else if q \<noteq> [] \<and> q = replicate (length q) (CHR ''d'')
        then Some (if ty = ''P'' then - int (length q) else - int (length q) - 1)
      else None)"

text \<open>
  Modelled from the spec: the interval grammar of the package \<^verbatim>\<open>interval-notation\<close>. An
  interval name is a sign, an interval number and a quality token; the description puts
  the number first and its examples (\<^verbatim>\<open>P8\<close>, \<^verbatim>\<open>-M2\<close>) the quality, and both orders are
  read. The result is the simple number 1..7, the alteration, the number of octaves and
  the direction.
\<close>

definition ivlParse_spec :: "string \<Rightarrow> (int \<times> int \<times> int \<times> int) option" where
  "ivlParse_spec s =
     (let neg = (s \<noteq> [] \<and> hd s = CHR ''-'');
          r = (if neg then tl s else s);
          isq = (\<lambda>x. x = CHR ''P'' \<or> x = CHR ''M'' \<or> x = CHR ''m'' \<or> x = CHR ''A'' \<or> x = CHR ''d'');
          qfirst = (takeWhile isq r \<noteq> []);
          q = (if qfirst then takeWhile isq r else dropWhile (\<lambda>x. \<not> isq x) r);
          n = (if qfirst then dropWhile isq r else takeWhile (\<lambda>x. \<not> isq x) r)
      in case read_nat n of
           None \<Rightarrow> None
         | Some k \<Rightarrow>
             if k = 0 then None
             else (case qToAlt (ivlType_spec (int k)) q of
                     None \<Rightarrow> None
                   | Some al \<Rightarrow>
                       Some ((int k - 1) mod 7 + 1, al, (int k - 1) div 7,
                             if neg then - 1 else 1)))"

text \<open>
  The conversion of a string to a number, for the strings that hold an optional minus
  sign and decimal digits, and the empty string, which converts to 0. Other strings are
  outside this fragment and are read as \<^verbatim>\<open>NaN\<close>.
\<close>

definition toNumber_dec :: "string \<Rightarrow> real option" where
  "toNumber_dec s = (if s = [] then Some 0 else map_option of_int (read_int s))"

definition spec_ext :: ext where
  "spec_ext =
     \<lparr> noteParse = noteParse_spec, ivlParse = ivlParse_spec, altToQ = altToQ_spec,
       ivlType = ivlType_spec, toNumber = toNumber_dec \<rparr>"

text \<open>
  Not in the source: the semitones from C to each of the seven natural steps, which is
  \<open>7 * FIFTHS[s] - 12 * FIFTH_OCTS[s]\<close>.
\<close>

definition step_semitones :: "int list" where
  "step_semitones = [0, 2, 4, 5, 7, 9, 11]"

section \<open>Facts about the tables\<close>

lemma FIFTH_OCTS_eq: "FIFTH_OCTS = [0, 1, 2, - 1, 0, 1, 2]"
  by (simp add: FIFTH_OCTS_def FIFTHS_def fOcts_def)

lemma js_rem_7: "js_rem a 7 = (if a < 0 then - ((- a) mod 7) else a mod 7)"
  by (simp add: js_rem_def sgn_if)

lemma unaltered_mod: "unaltered f = (f + 1) mod 7"
proof (cases "f + 1 < 0")
  case True
  have "(- (f + 1)) mod 7 = (if (f + 1) mod 7 = 0 then 0 else 7 - (f + 1) mod 7)"
    by (rule zmod_zminus1_eq_if)
  moreover have "0 \<le> (f + 1) mod 7" and "(f + 1) mod 7 < 7"
    by simp_all
  ultimately show ?thesis
    using True by (simp add: unaltered_def js_rem_7 Let_def)
next
  case False
  then show ?thesis
    by (simp add: unaltered_def js_rem_7 Let_def)
qed

lemma unaltered_range: "0 \<le> unaltered f \<and> unaltered f \<le> 6"
proof -
  have "0 \<le> (f + 1) mod 7" and "(f + 1) mod 7 < 7"
    by simp_all
  then show ?thesis
    by (simp add: unaltered_mod)
qed

lemma step_cases:
  assumes "0 \<le> st" and "st \<le> 6"
  obtains "st = 0" | "st = 1" | "st = 2" | "st = 3" | "st = 4" | "st = 5" | "st = (6::int)"
  using assms by arith

lemma FIFTHS_nth:
  "FIFTHS ! 0 = 0" "FIFTHS ! Suc 0 = 2" "FIFTHS ! 2 = 4" "FIFTHS ! 3 = - 1"
  "FIFTHS ! 4 = 1" "FIFTHS ! 5 = 3" "FIFTHS ! 6 = 5"
  by (simp_all add: FIFTHS_def)

lemma FIFTH_OCTS_nth:
  "FIFTH_OCTS ! 0 = 0" "FIFTH_OCTS ! Suc 0 = 1" "FIFTH_OCTS ! 2 = 2" "FIFTH_OCTS ! 3 = - 1"
  "FIFTH_OCTS ! 4 = 0" "FIFTH_OCTS ! 5 = 1" "FIFTH_OCTS ! 6 = 2"
  by (simp_all add: FIFTH_OCTS_eq)

lemma STEPS_nth:
  "STEPS ! 0 = 3" "STEPS ! Suc 0 = 0" "STEPS ! 2 = 4" "STEPS ! 3 = 1"
  "STEPS ! 4 = 5" "STEPS ! 5 = 2" "STEPS ! 6 = 6"
  by (simp_all add: STEPS_def)

lemma decodeAlt_shift: "decodeAlt (c + 7 * k) = decodeAlt c + k"
proof -
  have "c + 7 * k + 1 = (c + 1) + k * 7" by simp
  then show ?thesis
    unfolding decodeAlt_def by (simp only: div_mult_self1)
qed

lemma unaltered_shift: "unaltered (c + 7 * k) = unaltered c"
proof -
  have "c + 7 * k + 1 = (c + 1) + k * 7" by simp
  then show ?thesis
    unfolding unaltered_mod by (simp only: mod_mult_self1)
qed

lemma decodeStep_shift: "decodeStep (c + 7 * k) = decodeStep c"
  by (simp add: decodeStep_def unaltered_shift)

lemma neg_encPC: "- encPC st al = - (FIFTHS ! nat st) + 7 * (- al)"
  by (simp add: encPC_def)

lemma decode_small:
  "decodeStep 0 = 0" "decodeStep 2 = 1" "decodeStep 4 = 2" "decodeStep (- 1) = 3"
  "decodeStep 1 = 4" "decodeStep 3 = 5" "decodeStep 5 = 6"
  "decodeStep (- 2) = 6" "decodeStep (- 4) = 5" "decodeStep (- 3) = 2" "decodeStep (- 5) = 1"
  "decodeAlt 0 = 0" "decodeAlt 2 = 0" "decodeAlt 4 = 0" "decodeAlt (- 1) = 0"
  "decodeAlt 1 = 0" "decodeAlt 3 = 0" "decodeAlt 5 = 0"
  "decodeAlt (- 2) = - 1" "decodeAlt (- 4) = - 1" "decodeAlt (- 3) = - 1" "decodeAlt (- 5) = - 1"
  by (simp_all add: decodeStep_def decodeAlt_def unaltered_mod STEPS_nth)

lemma decodeAlt_encPC:
  assumes "0 \<le> st" and "st \<le> 6"
  shows "decodeAlt (encPC st al) = al"
  unfolding encPC_def decodeAlt_shift
  using assms by (elim step_cases) (simp_all add: FIFTHS_nth decode_small)

lemma decodeStep_encPC:
  assumes "0 \<le> st" and "st \<le> 6"
  shows "decodeStep (encPC st al) = st"
  unfolding encPC_def decodeStep_shift
  using assms by (elim step_cases) (simp_all add: FIFTHS_nth decode_small)

lemma decodeAlt_neg_encPC:
  assumes "0 \<le> st" and "st \<le> 6"
  shows "decodeAlt (- encPC st al) = inv_alt st al"
  unfolding neg_encPC decodeAlt_shift
  using assms by (elim step_cases) (simp_all add: FIFTHS_nth decode_small inv_alt_def)

lemma decodeStep_neg_encPC:
  assumes "0 \<le> st" and "st \<le> 6"
  shows "decodeStep (- encPC st al) = inv_step st"
  unfolding neg_encPC decodeStep_shift
  using assms by (elim step_cases) (simp_all add: FIFTHS_nth decode_small inv_step_def)

lemma decode_neg_oct:
  assumes "0 \<le> st" and "st \<le> 6"
  shows "- encOct st al oc + 4 * inv_alt st al + FIFTH_OCTS ! nat (inv_step st) = inv_oct st oc"
  using assms
  by (elim step_cases)
     (simp_all add: encOct_def FIFTH_OCTS_nth inv_step_def inv_alt_def inv_oct_def)

section \<open>Encoding and decoding are inverse\<close>

text \<open>
  Claim C1. For every step in 0..6 and all integers alt and oct (the ranges -4..4 and
  -2..10 of the claim among them), encoding the three fields without a direction succeeds
  and decoding the result gives back the same step, alt and oct, with direction \<^verbatim>\<open>null\<close>.
\<close>

theorem decode_encode_note:
  assumes "0 \<le> st" and "st \<le> 6"
  shows "\<exists>p. encode st al (Some oc) None = Some p
             \<and> decode p = \<lparr> step = st, alt = al, oct = Some oc, dir = None \<rparr>"
  using assms
  by (simp add: encode_def noteArr_def decode_def Let_def decodeAlt_encPC decodeStep_encPC
        encOct_def)

theorem decode_encode_note_witness:
  "(0::int) \<le> 3 \<and> (3::int) \<le> 6
   \<and> (\<exists>p. encode 3 (- 4) (Some 10) None = Some p
          \<and> decode p = \<lparr> step = 3, alt = - 4, oct = Some 10, dir = None \<rparr>)"
  using decode_encode_note [of 3 "- 4" 10] by simp

text \<open>
  Claim C2, as stated, fails for a descending interval: encoding the major second
  (step 1, alt 0, oct 0) with direction -1 gives \<^verbatim>\<open>['tnl', -2, 1, -1]\<close>, which decodes to
  step 6, alt -1, oct -1 and not to the fields that were encoded.
\<close>

theorem decode_encode_descending_counterexample:
  "encode 1 0 (Some 0) (Some (- 1)) = Some (Tnl4 (- 2) 1 (- 1))
   \<and> decode (Tnl4 (- 2) 1 (- 1)) = \<lparr> step = 6, alt = - 1, oct = Some (- 1), dir = Some (- 1) \<rparr>
   \<and> decode (Tnl4 (- 2) 1 (- 1)) \<noteq> \<lparr> step = 1, alt = 0, oct = Some 0, dir = Some (- 1) \<rparr>"
  by (simp add: encode_def ivlPitch_def encDir_def decode_def Let_def encPC_def encOct_def
        FIFTHS_nth FIFTH_OCTS_nth decode_small)

text \<open>
  Claim C2, amended. For every step in 0..6, all integers alt and oct and a direction of
  1 or -1, encoding succeeds. With direction 1 decoding gives back the four fields. With
  direction -1 the fifths and the octave are stored negated, and decoding reads the
  inverted interval: step \<open>(7 - step) mod 7\<close>, alt \<open>- alt\<close> for unison, fourth and fifth
  and \<open>- (alt + 1)\<close> for the other steps, oct \<open>- oct\<close> for the unison and \<open>- oct - 1\<close>
  for the other steps, direction -1.
\<close>

theorem decode_encode_ivl:
  assumes "0 \<le> st" and "st \<le> 6" and "d = 1 \<or> d = - 1"
  shows "\<exists>p. encode st al (Some oc) (Some d) = Some p
             \<and> decode p =
                 (if d = 1 then \<lparr> step = st, alt = al, oct = Some oc, dir = Some 1 \<rparr>
                  else \<lparr> step = inv_step st, alt = inv_alt st al,
                         oct = Some (inv_oct st oc), dir = Some (- 1) \<rparr>)"
proof (cases "d = 1")
  case True
  with assms(1,2) show ?thesis
    by (simp add: encode_def ivlPitch_def encDir_def decode_def Let_def
          decodeAlt_encPC decodeStep_encPC encOct_def)
next
  case False
  with assms(3) have d: "d = - 1" by simp
  have "decode (Tnl4 (- encPC st al) (- encOct st al oc) (- 1))
        = \<lparr> step = inv_step st, alt = inv_alt st al,
            oct = Some (inv_oct st oc), dir = Some (- 1) \<rparr>"
    using assms(1,2) decode_neg_oct [OF assms(1,2), of al oc]
    by (simp add: decode_def Let_def decodeAlt_neg_encPC decodeStep_neg_encPC)
  with assms(1,2) show ?thesis
    by (simp add: d encode_def ivlPitch_def encDir_def Let_def)
qed

theorem decode_encode_ivl_witness:
  "(0::int) \<le> 1 \<and> (1::int) \<le> 6 \<and> ((- 1::int) = 1 \<or> (- 1::int) = - 1)
   \<and> (\<exists>p. encode 1 0 (Some 0) (Some (- 1)) = Some p
          \<and> decode p = \<lparr> step = 6, alt = - 1, oct = Some (- 1), dir = Some (- 1) \<rparr>)"
  using decode_encode_ivl [of 1 "- 1" 0 0]
  by (simp add: inv_step_def inv_alt_def inv_oct_def)

section \<open>Decimal numbers and the note grammar\<close>

lemma digit_cases:
  assumes "j < (10::nat)"
  shows "j \<in> {0, 1, 2, 3, 4, 5, 6, 7, 8, 9}"
proof -
  from assms have "j = 0 \<or> j = 1 \<or> j = 2 \<or> j = 3 \<or> j = 4 \<or> 5 \<le> j \<and> j \<le> 9"
    by arith
  moreover have "j = 5 \<or> j = 6 \<or> j = 7 \<or> j = 8 \<or> j = 9" if "5 \<le> j \<and> j \<le> 9"
    using that by arith
  ultimately show ?thesis
    by auto
qed

lemma digit_val_digit_char: "n < 10 \<Longrightarrow> digit_val (digit_char n) = Some n"
  using digit_cases [of n] by (auto simp: digit_val_def digit_char_def)

lemma read_digits_snoc:
  "read_digits acc (xs @ [c]) =
     (case read_digits acc xs of
        None \<Rightarrow> None
      | Some a \<Rightarrow> (case digit_val c of None \<Rightarrow> None | Some d \<Rightarrow> Some (10 * a + d)))"
  by (induction xs arbitrary: acc) (simp_all split: option.splits)

lemma show_nat_nonempty: "show_nat n \<noteq> []"
  by (subst show_nat.simps) simp

lemma read_digits_show_nat: "read_digits 0 (show_nat n) = Some n"
proof (induction n rule: show_nat.induct)
  case (1 n)
  show ?case
  proof (cases "n < 10")
    case True
    then show ?thesis
      by (subst show_nat.simps) (simp add: digit_val_digit_char)
  next
    case False
    with 1 have "read_digits 0 (show_nat (n div 10)) = Some (n div 10)"
      by simp
    moreover have "digit_val (digit_char (n mod 10)) = Some (n mod 10)"
      by (simp add: digit_val_digit_char)
    ultimately show ?thesis
      using False by (subst show_nat.simps) (simp add: read_digits_snoc)
  qed
qed

lemma read_nat_show_nat: "read_nat (show_nat n) = Some n"
  by (simp add: read_nat_def show_nat_nonempty read_digits_show_nat)

lemma digit_char_in: "n < 10 \<Longrightarrow> digit_char n \<in> set ''0123456789''"
  using digit_cases [of n] by (auto simp: digit_char_def)

lemma hd_show_nat: "hd (show_nat n) \<in> set ''0123456789''"
proof (induction n rule: show_nat.induct)
  case (1 n)
  show ?case
  proof (cases "n < 10")
    case True
    then show ?thesis
      using digit_char_in [of n] by (subst show_nat.simps) simp
  next
    case False
    with 1 have "hd (show_nat (n div 10)) \<in> set ''0123456789''"
      by simp
    then show ?thesis
      using False show_nat_nonempty [of "n div 10"]
      by (subst show_nat.simps) simp
  qed
qed

lemma show_int_nonempty: "show_int i \<noteq> []"
  by (simp add: show_int_def show_nat_nonempty)

lemma hd_show_int: "hd (show_int i) \<in> set ''-0123456789''"
  using hd_show_nat [of "nat i"] by (simp add: show_int_def)

lemma read_int_show_int: "read_int (show_int i) = Some i"
proof (cases "i < 0")
  case True
  then show ?thesis
    by (simp add: show_int_def read_int_def read_nat_show_nat)
next
  case False
  obtain c r where cr: "show_nat (nat i) = c # r"
    using show_nat_nonempty [of "nat i"] by (cases "show_nat (nat i)") auto
  with hd_show_nat [of "nat i"] have "c \<noteq> CHR ''-''"
    by auto
  with False cr read_nat_show_nat [of "nat i"] show ?thesis
    by (simp add: show_int_def read_int_def)
qed


lemma takeWhile_eq_replicate:
  assumes "ys \<noteq> []" and "hd ys \<noteq> c"
  shows "takeWhile (\<lambda>x. x = c) (replicate n c @ ys) = replicate n c"
proof -
  from assms obtain y r where "ys = y # r" and "y \<noteq> c"
    by (cases ys) auto
  then show ?thesis
    by (induction n) simp_all
qed

lemma takeWhile_other:
  assumes "ys \<noteq> []" and "hd ys \<noteq> c" and "b \<noteq> c"
  shows "takeWhile (\<lambda>x. x = c) (replicate n b @ ys) = []"
proof (cases n)
  case 0
  with assms show ?thesis by (cases ys) auto
next
  case (Suc k)
  with assms show ?thesis by simp
qed

lemma toLetter_index:
  assumes "0 \<le> st" and "st \<le> 6"
  shows "\<exists>c. toLetter st = [c] \<and> index_of c ''CDEFGAB'' = Some (nat st)"
  using assms by (elim step_cases) (simp_all add: toLetter_def js_rem_7)

lemma noteParse_spec_reads:
  assumes "0 \<le> st" and "st \<le> 6"
  shows "noteParse_spec (toLetter st @ toAcc al @ show_int oc) = Some (st, al, Some oc)"
proof -
  from toLetter_index [OF assms] obtain c
    where c: "toLetter st = [c]" "index_of c ''CDEFGAB'' = Some (nat st)"
    by blast
  define r where "r = toAcc al @ show_int oc"
  have ne: "show_int oc \<noteq> []"
    by (rule show_int_nonempty)
  have hb: "hd (show_int oc) \<noteq> CHR ''b''" and hs: "hd (show_int oc) \<noteq> CHR ''#''"
    using hd_show_int [of oc] by auto
  have "\<exists>fl sh. takeWhile (\<lambda>x. x = CHR ''b'') r = fl \<and> takeWhile (\<lambda>x. x = CHR ''#'') r = sh
          \<and> (if fl \<noteq> [] then - int (length fl) else int (length sh)) = al
          \<and> drop (length (if fl \<noteq> [] then fl else sh)) r = show_int oc"
  proof (cases "al < 0")
    case True
    then have acc: "toAcc al = replicate (nat (- al)) (CHR ''b'')"
      by (simp add: toAcc_def fillStr_def)
    have "takeWhile (\<lambda>x. x = CHR ''b'') r = replicate (nat (- al)) (CHR ''b'')"
      unfolding r_def acc by (rule takeWhile_eq_replicate [OF ne hb])
    moreover have "drop (nat (- al)) r = show_int oc"
      by (simp add: r_def acc)
    ultimately show ?thesis
      using True by simp
  next
    case False
    then have acc: "toAcc al = replicate (nat al) (CHR ''#'')"
      by (simp add: toAcc_def fillStr_def)
    have "takeWhile (\<lambda>x. x = CHR ''b'') r = []"
      unfolding r_def acc by (rule takeWhile_other [OF ne hb]) simp
    moreover have "takeWhile (\<lambda>x. x = CHR ''#'') r = replicate (nat al) (CHR ''#'')"
      unfolding r_def acc by (rule takeWhile_eq_replicate [OF ne hs])
    moreover have "drop (nat al) r = show_int oc"
      by (simp add: r_def acc)
    ultimately show ?thesis
      using False by simp
  qed
  then obtain fl sh where
    fl: "takeWhile (\<lambda>x. x = CHR ''b'') r = fl" and
    sh: "takeWhile (\<lambda>x. x = CHR ''#'') r = sh" and
    al: "(if fl \<noteq> [] then - int (length fl) else int (length sh)) = al" and
    rest: "drop (length (if fl \<noteq> [] then fl else sh)) r = show_int oc"
    by blast
  have "noteParse_spec (c # r) = Some (int (nat st), al, Some oc)"
    unfolding noteParse_spec_def list.case c option.case Let_def fl sh al rest
    using ne by (simp add: read_int_show_int)
  with assms(1) show ?thesis
    by (simp add: c r_def)
qed

section \<open>Chroma\<close>

lemma chroma_mod: "7 * f - 12 * fOcts f = (7 * f) mod 12"
  by (simp add: fOcts_def minus_mult_div_eq_mod mult.commute)

text \<open>
  Claim C10. For every pitch array, whatever its shape, octave or direction, \<^verbatim>\<open>chroma\<close>
  returns \<open>7 * fifths - 12 * fOcts fifths\<close>, an integer from 0 to 11; the notes C#4 and Db4
  get the same chroma.
\<close>

theorem chroma_range:
  "chroma E (JPitch p) = JNum (of_int (7 * at1 p - 12 * fOcts (at1 p)))
   \<and> 0 \<le> 7 * at1 p - 12 * fOcts (at1 p)
   \<and> 7 * at1 p - 12 * fOcts (at1 p) \<le> 11
   \<and> chroma E (ofPitch (encode 0 1 (Some 4) None))
       = chroma E (ofPitch (encode 1 (- 1) (Some 4) None))"
proof -
  have "0 \<le> (7 * at1 p) mod 12" and "(7 * at1 p) mod 12 < 12"
    by simp_all
  moreover have "chroma E (JPitch q) = JNum (of_int (7 * at1 q - 12 * fOcts (at1 q)))" for q
    by (simp add: chroma_def pitchOp_def)
  moreover have "encode 0 1 (Some 4) None = Some (Tnl3 7 0)"
    and "encode 1 (- 1) (Some 4) None = Some (Tnl3 (- 5) 7)"
    by (simp_all add: encode_def encPC_def encOct_def noteArr_def FIFTHS_nth FIFTH_OCTS_nth)
  ultimately show ?thesis
    by (simp add: chroma_mod ofPitch_def)
qed

section \<open>Arguments that do not parse\<close>

lemma asPitch_unparseable:
  assumes "noteParse E s = None" and "ivlParse E s = None"
  shows "asPitch E (JStr s) = None"
  using assms by (simp add: asPitch_def parsePitch_def parseNote_def parseIvl_def)

lemma distance_null_throws:
  assumes "asPitch E a = None \<or> asPitch E b = None"
  shows "distance E a b = Inl TypeError"
proof (cases "asPitch E a")
  case None
  then show ?thesis by (simp add: distance_def)
next
  case (Some p)
  with assms have "asPitch E b = None" by simp
  with Some show ?thesis by (simp add: distance_def)
qed

lemma transpose_null:
  assumes "asPitch E a = None \<or> asPitch E b = None"
  shows "transpose E a b = JNull"
  using assms
  by (auto simp: transpose_def transpose_r_def trBy_def ofPitch_def toPitchStr_def
        split: option.splits pitch.splits)

lemma noteParse_spec_hello: "noteParse_spec ''hello'' = None"
  by (simp add: noteParse_spec_def)

lemma ivlParse_spec_hello: "ivlParse_spec ''hello'' = None"
  by (simp add: ivlParse_spec_def Let_def read_nat_def digit_val_def)

text \<open>
  Claim C5 fails on the code. A string that neither grammar reads, as the first argument
  of \<^verbatim>\<open>distance\<close>, parses to \<^verbatim>\<open>null\<close>, and \<^verbatim>\<open>substr\<close> reads \<^verbatim>\<open>null.length\<close>: the call throws a
  \<^verbatim>\<open>TypeError\<close>. \<^verbatim>\<open>transpose\<close>, whose \<^verbatim>\<open>trBy\<close> tests for \<^verbatim>\<open>null\<close>, returns \<^verbatim>\<open>null\<close> on the same
  arguments.
\<close>

theorem distance_unparseable_throws:
  "distance spec_ext (JStr ''hello'') (JStr ''C'') = Inl TypeError
   \<and> transpose spec_ext (JStr ''hello'') (JStr ''C'') = JNull"
proof -
  have "asPitch spec_ext (JStr ''hello'') = None"
    by (rule asPitch_unparseable)
       (simp_all add: spec_ext_def noteParse_spec_hello ivlParse_spec_hello)
  then show ?thesis
    by (simp add: distance_null_throws transpose_null)
qed

section \<open>Midi numbers\<close>

lemma height_encode:
  assumes "0 \<le> st" and "st \<le> 6"
  shows "7 * encPC st al + 12 * encOct st al oc = 12 * oc + step_semitones ! nat st + al"
  using assms
  by (elim step_cases) (simp_all add: encPC_def encOct_def FIFTHS_nth FIFTH_OCTS_nth step_semitones_def)

lemma height_hasOct: "(height p \<noteq> None) = hasOct p"
  by (simp add: height_def hasOct_def split: option.splits)

lemma midi_pitch:
  "midi E (JPitch p) = (case at2 p of Some o2 \<Rightarrow> JNum (of_int (7 * at1 p + 12 * o2 + 12)) | None \<Rightarrow> JNull)"
  by (cases p) (simp_all add: midi_def asNote_def height_def isMidi_def isArr_def)

lemma midi_no_note:
  assumes "\<forall>p. asNote E v = Some p \<longrightarrow> \<not> hasOct p"
  shows "midi E v = (if isMidi E v then (case js_number E v of Some x \<Rightarrow> JNum x | None \<Rightarrow> JNull) else JNull)"
proof (cases "asNote E v")
  case None
  then show ?thesis by (simp add: midi_def)
next
  case (Some p)
  with assms have "at2 p = None" by (simp add: hasOct_def)
  with Some show ?thesis by (simp add: midi_def height_def)
qed

lemma midi_note_str:
  assumes "noteParse E s = Some (st, al, Some oc)" and "0 \<le> st" and "st \<le> 6"
  shows "midi E (JStr s) = JNum (of_int (12 * (oc + 1) + step_semitones ! nat st + al))"
proof -
  from assms have "asNote E (JStr s) = Some (Tnl3 (encPC st al) (encOct st al oc))"
    by (simp add: asNote_def parseNote_def encode_def noteArr_def)
  then show ?thesis
    using height_encode [OF assms(2,3), of al oc]
    by (simp add: midi_def height_def algebra_simps)
qed

lemma noteParse_spec_C4: "noteParse_spec ''C4'' = Some (0, 0, Some 4)"
  by (simp add: noteParse_spec_def Let_def read_int_def read_nat_def digit_val_def)

lemma noteParse_spec_60: "noteParse_spec ''60'' = None"
  by (simp add: noteParse_spec_def)

lemma toNumber_dec_60: "toNumber_dec ''60'' = Some 60"
  by (simp add: toNumber_dec_def read_int_def read_nat_def digit_val_def)

text \<open>
  Claim C6, as stated, fails for a number that is not an integer: 60.5 is neither a note
  nor an integer from 0 to 127, and \<^verbatim>\<open>midi\<close> returns it, not \<^verbatim>\<open>null\<close>. It also fails for an
  interval in array notation, which is not a note pitch and for which \<^verbatim>\<open>midi\<close> returns its
  height plus 12.
\<close>

theorem midi_counterexample:
  "midi spec_ext (JNum (121 / 2)) = JNum (121 / 2)
   \<and> of_int \<lfloor>121 / 2 :: real\<rfloor> \<noteq> (121 / 2 :: real)
   \<and> midi spec_ext (JPitch (Tnl4 0 0 1)) = JNum 12"
  by (simp add: midi_def asNote_def parseNote_def height_def isMidi_def isValue_def isArr_def
        js_number_def)

text \<open>
  Claim C6, amended. For a pitch array with an octave entry, note or interval, \<^verbatim>\<open>midi\<close>
  returns the height \<open>7 * fifths + 12 * octave\<close> plus 12, and for a pitch class \<^verbatim>\<open>null\<close>. For a
  string that the note grammar reads with an octave it returns that height plus 12, which
  is \<open>12 * (oct + 1)\<close> plus the semitones of the step plus the alteration (60 for C4). For a
  string that does not parse as a note with octave it returns the number \<open>x\<close> the string
  converts to when \<open>0 \<le> x < 128\<close>, and \<^verbatim>\<open>null\<close> otherwise. For a number \<open>x\<close>, integer or not, it
  returns \<open>x\<close> when \<open>0 \<le> x < 128\<close> and \<^verbatim>\<open>null\<close> otherwise; for a boolean 1 or 0; for \<^verbatim>\<open>null\<close> and
  \<^verbatim>\<open>undefined\<close> it returns \<^verbatim>\<open>null\<close>.
\<close>

theorem midi_cases:
  "midi E (JPitch p)
     = (case at2 p of Some o2 \<Rightarrow> JNum (of_int (7 * at1 p + 12 * o2 + 12)) | None \<Rightarrow> JNull)
   \<and> (noteParse E s = Some (st, al, Some oc) \<and> 0 \<le> st \<and> st \<le> 6 \<longrightarrow>
        midi E (JStr s) = JNum (of_int (12 * (oc + 1) + step_semitones ! nat st + al)))
   \<and> ((\<forall>q. parseNote E (JStr t) = Some q \<longrightarrow> \<not> hasOct q) \<longrightarrow>
        midi E (JStr t)
          = (case toNumber E t of
               Some x \<Rightarrow> if 0 \<le> x \<and> x < 128 then JNum x else JNull
             | None \<Rightarrow> JNull))
   \<and> midi E (JNum x) = (if 0 \<le> x \<and> x < 128 then JNum x else JNull)
   \<and> midi E (JBool b) = JNum (if b then 1 else 0)
   \<and> midi E JNull = JNull
   \<and> midi E JUndefined = JNull"
proof -
  have "midi E (JStr t)
          = (case toNumber E t of
               Some x \<Rightarrow> if 0 \<le> x \<and> x < 128 then JNum x else JNull
             | None \<Rightarrow> JNull)"
    if "\<forall>q. parseNote E (JStr t) = Some q \<longrightarrow> \<not> hasOct q"
    using midi_no_note [of E "JStr t"] that
    by (simp add: asNote_def isMidi_def isValue_def isArr_def js_number_def split: option.splits)
  moreover have "midi E (JNum x) = (if 0 \<le> x \<and> x < 128 then JNum x else JNull)"
    using midi_no_note [of E "JNum x"]
    by (simp add: asNote_def parseNote_def isMidi_def isValue_def isArr_def js_number_def)
  moreover have "midi E (JBool b) = JNum (if b then 1 else 0)"
    using midi_no_note [of E "JBool b"]
    by (simp add: asNote_def parseNote_def isMidi_def isValue_def isArr_def js_number_def)
  moreover have "midi E JNull = JNull" and "midi E JUndefined = JNull"
    using midi_no_note [of E JNull] midi_no_note [of E JUndefined]
    by (simp_all add: asNote_def parseNote_def isMidi_def isValue_def)
  ultimately show ?thesis
    using midi_pitch [of E p] midi_note_str [of E s st al oc]
    by blast
qed

theorem midi_cases_witness:
  "midi spec_ext (JStr ''C4'') = JNum 60 \<and> midi spec_ext (JStr ''60'') = JNum 60"
proof -
  have "noteParse spec_ext ''C4'' = Some (0, 0, Some 4) \<and> (0::int) \<le> 0 \<and> (0::int) \<le> 6"
    by (simp add: spec_ext_def noteParse_spec_C4)
  moreover have "\<forall>q. parseNote spec_ext (JStr ''60'') = Some q \<longrightarrow> \<not> hasOct q"
    by (simp add: spec_ext_def parseNote_def noteParse_spec_60)
  moreover have "toNumber spec_ext ''60'' = Some 60"
    by (simp add: spec_ext_def toNumber_dec_60)
  ultimately show ?thesis
    using midi_cases [of spec_ext "Tnl2 0" "''C4''" 0 0 4 "''60''" 0 True]
    by (simp add: step_semitones_def)
qed

section \<open>From midi numbers to names and back\<close>

lemma twelve_cases:
  assumes "0 \<le> k" and "k < (12::int)"
  shows "k \<in> {0, 1, 2, 3, 4, 5, 6, 7, 8, 9, 10, 11}"
proof -
  from assms have "k = 0 \<or> k = 1 \<or> k = 2 \<or> k = 3 \<or> k = 4 \<or> k = 5
      \<or> 6 \<le> k \<and> k \<le> 11"
    by arith
  moreover have "k = 6 \<or> k = 7 \<or> k = 8 \<or> k = 9 \<or> k = 10 \<or> k = 11"
    if "6 \<le> k \<and> k \<le> 11"
    using that by arith
  ultimately show ?thesis
    by auto
qed

lemma toLetter_small:
  "toLetter 0 = ''C''" "toLetter 1 = ''D''" "toLetter 2 = ''E''" "toLetter 3 = ''F''"
  "toLetter 4 = ''G''" "toLetter 5 = ''A''" "toLetter 6 = ''B''"
  by (simp_all add: toLetter_def js_rem_7)

lemma toAcc_small: "toAcc 0 = []" "toAcc (- 1) = ''b''"
  by (simp_all add: toAcc_def fillStr_def)

lemma PCS_fields:
  assumes "0 \<le> k" and "k < 12"
  shows "\<exists>st al. 0 \<le> st \<and> st \<le> 6 \<and> PCS ! nat k = toLetter st @ toAcc al
           \<and> step_semitones ! nat st + al = k"
proof -
  let ?S = "[0, 1, 1, 2, 2, 3, 4, 4, 5, 5, 6, 6] :: int list"
  let ?A = "[0, - 1, 0, - 1, 0, 0, - 1, 0, - 1, 0, - 1, 0] :: int list"
  have "0 \<le> ?S ! nat k \<and> ?S ! nat k \<le> 6
        \<and> PCS ! nat k = toLetter (?S ! nat k) @ toAcc (?A ! nat k)
        \<and> step_semitones ! nat (?S ! nat k) + ?A ! nat k = k"
    using twelve_cases [OF assms]
    by (auto simp: PCS_def toLetter_small toAcc_small step_semitones_def)
  then show ?thesis by blast
qed

lemma noteParse_spec_Db4: "noteParse_spec ''Db4'' = Some (1, - 1, Some 4)"
  by (simp add: noteParse_spec_def Let_def read_int_def read_nat_def digit_val_def)

lemma PCS_flat:
  assumes "0 \<le> k" and "k < 12"
  shows "hd (PCS ! nat k) \<in> set ''CDEFGAB''
         \<and> (tl (PCS ! nat k) = [] \<or> tl (PCS ! nat k) = ''b'')"
  using twelve_cases [OF assms] by (auto simp: PCS_def)

lemma name_Db4: "PCS ! nat (61 mod 12) @ show_int (61 div 12 - 1) = ''Db4''"
  by (simp add: PCS_def show_int_def show_nat.simps [of 4] digit_char_def)

text \<open>
  Claim C7. The note grammar is external; the claim is proved for every grammar that reads
  a name made of a letter, accidentals and a decimal octave, as \<^verbatim>\<open>strNote\<close> writes it, back
  into its step, alteration and octave. For every integer \<open>m\<close> from 0 to 127, \<^verbatim>\<open>fromMidi\<close>
  returns the entry \<open>m mod 12\<close> of the table \<^verbatim>\<open>PCS\<close> followed by the decimal octave
  \<open>m div 12 - 1\<close>; that entry is a letter of \<^verbatim>\<open>CDEFGAB\<close> alone or followed by one flat
  \<^verbatim>\<open>b\<close>, never by a sharp; and for such a grammar \<^verbatim>\<open>midi\<close> of the returned name is \<open>m\<close>. The witness takes the grammar
  modelled from the description, which reads these names, at \<open>m = 61\<close>, whose name is
  \<^verbatim>\<open>'Db4'\<close>.
\<close>

theorem midi_fromMidi:
  assumes reads: "\<And>st al oc. 0 \<le> st \<Longrightarrow> st \<le> 6 \<Longrightarrow>
            noteParse E (toLetter st @ toAcc al @ show_int oc) = Some (st, al, Some oc)"
    and "0 \<le> m" and "m \<le> 127"
  shows "fromMidi m = Some (PCS ! nat (m mod 12) @ show_int (m div 12 - 1))
         \<and> hd (PCS ! nat (m mod 12)) \<in> set ''CDEFGAB''
         \<and> (tl (PCS ! nat (m mod 12)) = [] \<or> tl (PCS ! nat (m mod 12)) = ''b'')
         \<and> midi E (JStr (PCS ! nat (m mod 12) @ show_int (m div 12 - 1))) = JNum (of_int m)"
proof -
  let ?k = "m mod 12"
  have k: "0 \<le> ?k" "?k < 12"
    by simp_all
  from assms(2) have rem: "js_rem m 12 = ?k"
    by (simp add: js_rem_def sgn_if)
  from PCS_fields [OF k] obtain st al
    where st: "0 \<le> st" "st \<le> 6"
      and name: "PCS ! nat ?k = toLetter st @ toAcc al"
      and semi: "step_semitones ! nat st + al = ?k"
    by blast
  let ?s = "toLetter st @ toAcc al @ show_int (m div 12 - 1)"
  have spelled: "fromMidi m = Some (PCS ! nat ?k @ show_int (m div 12 - 1))"
    using k(1) by (simp add: fromMidi_def rem Let_def)
  have "midi E (JStr ?s) = JNum (of_int (12 * (m div 12 - 1 + 1) + step_semitones ! nat st + al))"
    by (rule midi_note_str [OF reads [OF st] st])
  moreover have "12 * (m div 12 - 1 + 1) + step_semitones ! nat st + al = m"
    using semi by (simp add: add.assoc)
  ultimately have "midi E (JStr (PCS ! nat ?k @ show_int (m div 12 - 1))) = JNum (of_int m)"
    by (simp add: name)
  with spelled PCS_flat [OF k] show ?thesis
    by simp
qed

theorem midi_fromMidi_witness:
  "(0::int) \<le> 61 \<and> (61::int) \<le> 127
   \<and> fromMidi 61 = Some ''Db4'' \<and> midi spec_ext (JStr ''Db4'') = JNum 61"
proof -
  have reads: "noteParse spec_ext (toLetter st @ toAcc al @ show_int oc) = Some (st, al, Some oc)"
    if "0 \<le> st" and "st \<le> 6" for st al oc
    using that by (simp add: spec_ext_def noteParse_spec_reads)
  from midi_fromMidi [of spec_ext 61, OF reads] show ?thesis
    by (simp only: name_Db4) simp
qed

section \<open>Interval names\<close>

lemma show_nat_digit: "n < 10 \<Longrightarrow> show_nat n = [digit_char n]"
  by (subst show_nat.simps) simp

lemma show_int_small:
  "show_int 2 = ''2''" "show_int (- 2) = ''-2''"
  by (simp_all add: show_int_def show_nat_digit digit_char_def)

lemma decode_ivl_asc:
  assumes "0 \<le> st" and "st \<le> 6" and "d \<noteq> 0"
  shows "decode (Tnl4 (encPC st al) (encOct st al oc) d)
         = \<lparr> step = st, alt = al, oct = Some oc, dir = Some d \<rparr>"
  using assms
  by (simp add: decode_def Let_def decodeAlt_encPC decodeStep_encPC encOct_def)

lemma decode_ivl_desc:
  assumes "0 \<le> st" and "st \<le> 6" and "d \<noteq> 0"
  shows "decode (Tnl4 (- encPC st al) (- encOct st al oc) d)
         = \<lparr> step = inv_step st, alt = inv_alt st al, oct = Some (inv_oct st oc), dir = Some d \<rparr>"
  using assms decode_neg_oct [OF assms(1,2), of al oc]
  by (simp add: decode_def Let_def decodeAlt_neg_encPC decodeStep_neg_encPC)

lemma decode_desc_M2:
  "decode (Tnl4 (- 2) 1 (- 1)) = \<lparr> step = 6, alt = - 1, oct = Some (- 1), dir = Some (- 1) \<rparr>"
  by (simp add: decode_def Let_def decode_small FIFTH_OCTS_nth)

text \<open>
  Claim C8. Let an interval array with direction 1 or -1 decode to step \<open>s\<close>, alteration \<open>a\<close>
  and octave \<open>oc\<close>. \<^verbatim>\<open>strIvl\<close> writes the direction times the interval number, then the
  quality of that number and an alteration. Descending, the number is
  \<open>(8 - s) - 7 * (oc + 1)\<close> and the alteration is \<open>- a\<close> when \<open>s + 1\<close> is perfectable and
  \<open>- (a + 1)\<close> when it is not; ascending, the number is \<open>s + 1 + 7 * oc\<close> and the alteration
  is \<open>a\<close>. Perfectability and the quality string come from the external package.
\<close>

theorem strIvl_number_alteration:
  assumes "decode (Tnl4 f o2 d) = \<lparr> step = s, alt = a, oct = Some oc, dir = Some d \<rparr>"
    and "d = 1 \<or> d = - 1"
  shows "strIvl E (Tnl4 f o2 d)
         = (let num = (if d = 1 then s + 1 + 7 * oc else (8 - s) - 7 * (oc + 1));
                qa = (if d = 1 then a else if ivlType E (s + 1) = ''P'' then - a else - (a + 1))
            in Some (show_int (d * num) @ altToQ E num qa))"
  using assms
  by (auto simp: strIvl_def isIvlPitch_def hasOct_def Let_def calcNum_def calcAlt_def isAsc_def
        isPerf_def nullnum_def)

theorem strIvl_number_alteration_witness:
  "decode (Tnl4 (- 2) 1 (- 1)) = \<lparr> step = 6, alt = - 1, oct = Some (- 1), dir = Some (- 1) \<rparr>
   \<and> ((- 1::int) = 1 \<or> (- 1::int) = - 1)
   \<and> strIvl spec_ext (Tnl4 (- 2) 1 (- 1)) = Some ''-2M''"
  using strIvl_number_alteration [OF decode_desc_M2, of spec_ext]
  by (simp add: decode_desc_M2 spec_ext_def ivlType_spec_def altToQ_spec_def show_int_small)

text \<open>What the renderer makes of an encoded interval, for the perfectability test of the
  description: number and alteration are those that were encoded, in both directions.\<close>

lemma strIvl_descending:
  assumes "decode (Tnl4 f o2 (- 1)) = \<lparr> step = s, alt = a, oct = Some oc, dir = Some (- 1) \<rparr>"
    and "num = (8 - s) - 7 * (oc + 1)"
    and "qa = (if ivlType E (s + 1) = ''P'' then - a else - (a + 1))"
  shows "strIvl E (Tnl4 f o2 (- 1)) = Some (show_int (- 1 * num) @ altToQ E num qa)"
  using assms
  by (simp add: strIvl_def isIvlPitch_def hasOct_def Let_def calcNum_def calcAlt_def isAsc_def
        isPerf_def nullnum_def)

lemma strIvl_encode:
  assumes "0 \<le> st" and "st \<le> 6" and "d = 1 \<or> d = - 1" and "ivlType E = ivlType_spec"
  shows "\<exists>p. encode st al (Some oc) (Some d) = Some p
           \<and> strIvl E p = Some (show_int (d * (st + 1 + 7 * oc)) @ altToQ E (st + 1 + 7 * oc) al)"
proof (cases "d = 1")
  case True
  with assms(1,2) show ?thesis
    by (simp add: encode_def ivlPitch_def encDir_def strIvl_def isIvlPitch_def hasOct_def Let_def
          decode_ivl_asc calcNum_def calcAlt_def isAsc_def nullnum_def)
next
  case False
  with assms(3) have d: "d = - 1" by simp
  have num: "st + 1 + 7 * oc = 8 - inv_step st - 7 * (inv_oct st oc + 1)"
    using assms(1,2) by (elim step_cases) (simp_all add: inv_step_def inv_oct_def)
  have alt: "al = (if ivlType E (inv_step st + 1) = ''P'' then - inv_alt st al
                   else - (inv_alt st al + 1))"
    unfolding assms(4)
    using assms(1,2) by (elim step_cases) (simp_all add: inv_step_def inv_alt_def ivlType_spec_def)
  have "strIvl E (Tnl4 (- encPC st al) (- encOct st al oc) (- 1))
        = Some (show_int (- 1 * (st + 1 + 7 * oc)) @ altToQ E (st + 1 + 7 * oc) al)"
    by (rule strIvl_descending [OF decode_ivl_desc num alt]) (simp_all add: assms(1,2))
  with assms(1,2) show ?thesis
    by (simp add: d encode_def ivlPitch_def encDir_def Let_def)
qed

section \<open>Distance and transposition\<close>





text \<open>
  Claim C4. For any two pitch classes, in either order, \<^verbatim>\<open>distance\<close> returns the interval
  array whose fifths are \<open>b.fifths - a.fifths\<close>, whose octave is \<open>- fOcts\<close> of that
  difference and whose direction is 1, and that array decodes with direction 1.
\<close>

theorem distance_pitch_classes:
  "distance E (JPitch (Tnl2 fa)) (JPitch (Tnl2 fb))
     = Inr (JPitch (Tnl4 (fb - fa) (- fOcts (fb - fa)) 1))
   \<and> dir (decode (Tnl4 (fb - fa) (- fOcts (fb - fa)) 1)) = Some 1"
  by (simp add: distance_def asPitch_def ivlPitch_def isArr_def ofPitch_def decode_def Let_def)




section \<open>Simplifying intervals\<close>

lemma sq_dir: "d = 1 \<or> d = - 1 \<Longrightarrow> d * (d * x) = (x::int)"
  by auto

lemma simplify_encoded:
  assumes "0 \<le> st" and "st \<le> 6" and "d = 1 \<or> d = - 1"
  shows "\<exists>i. encode st al (Some oc) (Some d) = Some i
           \<and> simplify E (JPitch i) = Some (ofPitch (encode st al (Some 0) (Some d)))"
proof -
  from assms(3) have d0: "d \<noteq> 0" and dd: "encDir d = d"
    by (auto simp: encDir_def)
  have enc: "encode st al (Some k) (Some d) = Some (Tnl4 (d * encPC st al) (d * encOct st al k) d)"
    for k
    using assms(1,2) d0 by (simp add: encode_def Let_def dd ivlPitch_def)
  have "simplify_fn (Tnl4 (d * encPC st al) (d * encOct st al oc) d)
        = Some (JPitch (Tnl4 (d * encPC st al) (d * encOct st al 0) d))"
    using assms(1,2) d0
    by (simp add: simplify_fn_def sq_dir [OF assms(3)] decodeStep_encPC decodeAlt_encPC Let_def
          ivlPitch_def encOct_def algebra_simps)
  then show ?thesis
    by (simp add: enc simplify_def pitchOp_def ofPitch_def)
qed

lemma simplify_str_asc:
  assumes "ivlParse E s = Some (n, al, oc, 1)" and "1 \<le> n" and "n \<le> 7"
  shows "simplify E (JStr s) = Some (JStr (show_int n @ altToQ E n al))"
proof -
  from assms(2,3) have st: "0 \<le> n - 1" "n - 1 \<le> 6"
    by simp_all
  have "parseIvl E (JStr s) = Some (Tnl4 (encPC (n - 1) al) (encOct (n - 1) al oc) 1)"
    using assms st by (simp add: parseIvl_def encode_def Let_def encDir_def ivlPitch_def)
  moreover have "simplify_fn (Tnl4 (encPC (n - 1) al) (encOct (n - 1) al oc) 1)
        = Some (JPitch (Tnl4 (encPC (n - 1) al) (encOct (n - 1) al 0) 1))"
    using st
    by (simp add: simplify_fn_def decodeStep_encPC decodeAlt_encPC Let_def ivlPitch_def encOct_def)
  moreover have "strIvl E (Tnl4 (encPC (n - 1) al) (encOct (n - 1) al 0) 1)
        = Some (show_int n @ altToQ E n al)"
    using st
    by (simp add: strIvl_def isIvlPitch_def hasOct_def Let_def decode_ivl_asc calcNum_def
          calcAlt_def isAsc_def nullnum_def)
  ultimately show ?thesis
    by (simp add: simplify_def pitchOp_def toIvlStr_def ofStr_def)
qed

lemma simplifyAsc_descending:
  assumes "simplify E (JPitch j) = Some (JPitch (Tnl4 f o2 d))" and "d \<noteq> 1"
  shows "simplifyAsc E (JPitch j) = Some (JPitch (Tnl4 f (o2 + 1) 1))"
  using assms by (simp add: simplifyAsc_def pitchOp_def simplifyAsc_fn_def ivlPitch_def)

lemma ivlParse_spec_M9: "ivlParse_spec ''M9'' = Some (2, 0, 1, 1)"
  by (simp add: ivlParse_spec_def Let_def read_nat_def digit_val_def ivlType_spec_def qToAlt_def)

lemma simplify_desc_M2:
  "simplify E (JPitch (Tnl4 (- 2) 1 (- 1))) = Some (JPitch (Tnl4 (- 2) 1 (- 1)))"
  by (simp add: simplify_def pitchOp_def simplify_fn_def Let_def decode_small FIFTH_OCTS_nth
        ivlPitch_def)

text \<open>For any grammar and any quality formatter, a name that \<^verbatim>\<open>simplify\<close> returns begins
  with a minus sign or a digit.\<close>

lemma strIvl_head:
  assumes "strIvl E p = Some s"
  shows "s \<noteq> [] \<and> hd s \<in> set ''-0123456789''"
proof -
  from assms obtain k q where "s = show_int k @ q"
    by (auto simp: strIvl_def Let_def split: if_splits)
  then show ?thesis
    using show_int_nonempty [of k] hd_show_int [of k] by simp
qed

lemma simplify_str_head:
  assumes "simplify E (JStr s) = Some (JStr t)"
  shows "t \<noteq> [] \<and> hd t \<in> set ''-0123456789''"
proof (cases "parseIvl E (JStr s)")
  case None
  with assms show ?thesis
    by (simp add: simplify_def pitchOp_def)
next
  case (Some p)
  with assms obtain q where "strIvl E q = Some t"
    by (auto simp: simplify_def pitchOp_def simplify_fn_def toIvlStr_def ofStr_def Let_def
          split: pitch.splits option.splits)
  then show ?thesis
    by (rule strIvl_head)
qed

lemma simplify_never_quality_first: "simplify E (JStr s) \<noteq> Some (JStr ''M2'')"
  using simplify_str_head [of E s "''M2''"] by auto

text \<open>
  Claim C9, as stated, fails in its example: \<^verbatim>\<open>strIvl\<close> writes the number before the
  quality, so the major ninth \<^verbatim>\<open>'M9'\<close> simplifies to the string \<^verbatim>\<open>'2M'\<close>, not \<^verbatim>\<open>'M2'\<close>.
\<close>

theorem simplify_M9_counterexample:
  "simplify spec_ext (JStr ''M9'') = Some (JStr ''2M'') \<and> JStr ''2M'' \<noteq> JStr ''M2''"
  using simplify_str_asc [of spec_ext "''M9''" 2 0 1]
  by (simp add: spec_ext_def ivlParse_spec_M9 show_int_small altToQ_spec_def ivlType_spec_def)

text \<open>
  Claim C9, amended. For an interval encoded from a step in 0..6, an alteration, an octave
  and a direction of 1 or -1, \<^verbatim>\<open>simplify\<close> returns the interval encoded from the same step,
  alteration and direction with octave 0: the compound interval collapses to its simple
  form, quality and direction unchanged. For a string that the interval grammar reads as
  an ascending interval with simple number \<open>n\<close> and alteration \<open>al\<close>, \<^verbatim>\<open>simplify\<close> returns the
  number \<open>n\<close> followed by the quality of \<open>n\<close> and \<open>al\<close>, so \<^verbatim>\<open>'2M'\<close> for \<^verbatim>\<open>'M9'\<close>. When
  \<^verbatim>\<open>simplify\<close> of an interval array has a direction other than 1, \<^verbatim>\<open>simplifyAsc\<close> returns the
  ascending interval with the same fifths and the octave one higher.
\<close>

theorem simplify_cases:
  "(0 \<le> st \<and> st \<le> 6 \<and> (d = 1 \<or> d = - 1) \<longrightarrow>
      (\<exists>i. encode st al (Some oc) (Some d) = Some i
          \<and> simplify E (JPitch i) = Some (ofPitch (encode st al (Some 0) (Some d)))))
   \<and> (ivlParse E s = Some (n, al', oc', 1) \<and> 1 \<le> n \<and> n \<le> 7 \<longrightarrow>
      simplify E (JStr s) = Some (JStr (show_int n @ altToQ E n al')))
   \<and> (simplify E (JPitch j) = Some (JPitch (Tnl4 f o2 d')) \<and> d' \<noteq> 1 \<longrightarrow>
      simplifyAsc E (JPitch j) = Some (JPitch (Tnl4 f (o2 + 1) 1)))"
  using simplify_encoded [of st d al oc E] simplify_str_asc [of E s n al' oc']
    simplifyAsc_descending [of E j f o2 d']
  by blast

theorem simplify_cases_witness:
  "((0::int) \<le> 1 \<and> (1::int) \<le> 6 \<and> ((1::int) = 1 \<or> (1::int) = - 1))
   \<and> encode 1 0 (Some 1) (Some 1) = Some (Tnl4 2 0 1)
   \<and> simplify spec_ext (JPitch (Tnl4 2 0 1)) = Some (JPitch (Tnl4 2 (- 1) 1))
   \<and> encode 1 0 (Some 0) (Some 1) = Some (Tnl4 2 (- 1) 1)
   \<and> (ivlParse spec_ext ''M9'' = Some (2, 0, 1, 1) \<and> (1::int) \<le> 2 \<and> (2::int) \<le> 7)
   \<and> simplify spec_ext (JStr ''M9'') = Some (JStr ''2M'')
   \<and> (simplify spec_ext (JPitch (Tnl4 (- 2) 1 (- 1))) = Some (JPitch (Tnl4 (- 2) 1 (- 1)))
       \<and> (- 1::int) \<noteq> 1)
   \<and> simplifyAsc spec_ext (JPitch (Tnl4 (- 2) 1 (- 1))) = Some (JPitch (Tnl4 (- 2) 2 1))"
proof -
  have e1: "encode 1 0 (Some 1) (Some 1) = Some (Tnl4 2 0 1)"
    and e0: "encode 1 0 (Some 0) (Some 1) = Some (Tnl4 2 (- 1) 1)"
    by (simp_all add: encode_def Let_def encDir_def ivlPitch_def encPC_def encOct_def
          FIFTHS_nth FIFTH_OCTS_nth)
  have p: "ivlParse spec_ext ''M9'' = Some (2, 0, 1, 1)"
    by (simp add: spec_ext_def ivlParse_spec_M9)
  show ?thesis
    using simplify_cases [of 1 1 0 1 spec_ext "''M9''" 2 0 1 "Tnl4 (- 2) 1 (- 1)" "- 2" 1 "- 1"]
    by (simp add: e1 e0 p simplify_desc_M2 ofPitch_def show_int_small)
       (simp add: spec_ext_def altToQ_spec_def ivlType_spec_def)
qed

end
